theory Spec2Isabelle
  imports Main "HOL-Library.Word" "HOL-Library.List_Lexorder" "HOL-Library.Product_Lexorder"
begin

unbundle bit_operations_syntax

section \<open>Data model\<close>

type_synonym u8 = "8 word"
type_synonym u32 = "32 word"

text \<open>
  \<^verbatim>\<open>struct IPv4Network { uint32_t address; uint8_t netmask; uint8_t family; uint8_t flags; }\<close>
  and \<^verbatim>\<open>struct IPv6Network { uint8_t address[16]; uint8_t netmask; uint8_t family; uint8_t flags; }\<close>.
\<close>

record IPv4Network =
  address :: u32
  netmask :: u8
  family :: u8
  flags :: u8

record IPv6Network =
  address6 :: "u8 list"
  netmask6 :: u8
  family6 :: u8
  flags6 :: u8

definition ADDR_FLAG_CIDR :: u8 where "ADDR_FLAG_CIDR = 0x01"
definition ADDR_FLAG_INET :: u8 where "ADDR_FLAG_INET = 0x02"
definition AF_INET_VAL :: u8 where "AF_INET_VAL = 2"
definition AF_INET6_VAL :: u8 where "AF_INET6_VAL = 10"
definition IPV4_MAX_PREFIXLEN :: u8 where "IPV4_MAX_PREFIXLEN = 32"
definition IPV6_MAX_PREFIXLEN :: u8 where "IPV6_MAX_PREFIXLEN = 128"
definition kMaxIPv6String :: nat where "kMaxIPv6String = 44"

subsection \<open>Object representation\<close>

text \<open>
  The records are moved in and out of byte buffers with \<^verbatim>\<open>memcpy\<close>, so a buffer holds
  the object representation of the struct. Neither struct is packed. \<^verbatim>\<open>IPv4Network\<close>
  starts with a \<^verbatim>\<open>uint32_t\<close>, which aligns the struct to 4 bytes: the address occupies the
  offsets 0 to 3 in the byte order of the host (little-endian, least significant byte first),
  the prefix length is at offset 4, the family at offset 5, the flags at offset 6, and one
  byte of tail padding at offset 7 brings \<^verbatim>\<open>sizeof(IPv4Network)\<close> to 8 (the comment on the
  struct says 7). The padding byte of a local struct is never written by the code; the value
  it happens to hold is the argument \<open>pad\<close> of every function that stores such a struct.
  \<^verbatim>\<open>IPv6Network\<close> has byte members only: 16 address bytes, then the three bytes at the
  offsets 16, 17 and 18, 19 bytes in all. The offsets 4, 5, 16 and 17 are also the ones the
  code reads directly (\<^verbatim>\<open>buffer[4]\<close>, \<^verbatim>\<open>buffer[5]\<close>, \<^verbatim>\<open>buffer[16]\<close>,
  \<^verbatim>\<open>buffer[17]\<close>). A byte buffer together with its length is a list of bytes. The fields
  of the IPv6 struct carry the suffix 6 in the model.
\<close>

definition sizeof_IPv4Network :: nat where "sizeof_IPv4Network = 8"
definition sizeof_IPv6Network :: nat where "sizeof_IPv6Network = 19"

definition store_u32 :: "u32 \<Rightarrow> u8 list" where
  "store_u32 w = [ucast w, ucast (drop_bit 8 w), ucast (drop_bit 16 w), ucast (drop_bit 24 w)]"

definition load_u32 :: "u8 list \<Rightarrow> u32" where
  "load_u32 bs = ucast (bs ! 0) OR push_bit 8 (ucast (bs ! 1))
                 OR push_bit 16 (ucast (bs ! 2)) OR push_bit 24 (ucast (bs ! 3))"

definition store_IPv4Network :: "u8 \<Rightarrow> IPv4Network \<Rightarrow> u8 list" where
  "store_IPv4Network pad n = store_u32 (address n) @ [netmask n, family n, flags n, pad]"

definition load_IPv4Network :: "u8 list \<Rightarrow> IPv4Network" where
  "load_IPv4Network bs =
     \<lparr>address = load_u32 bs, netmask = bs ! 4, family = bs ! 5, flags = bs ! 6\<rparr>"

definition store_IPv6Network :: "IPv6Network \<Rightarrow> u8 list" where
  "store_IPv6Network n = take 16 (address6 n) @ [netmask6 n, family6 n, flags6 n]"

definition load_IPv6Network :: "u8 list \<Rightarrow> IPv6Network" where
  "load_IPv6Network bs =
     \<lparr>address6 = take 16 bs, netmask6 = bs ! 16, family6 = bs ! 17, flags6 = bs ! 18\<rparr>"

section \<open>Comparator\<close>

text \<open>\<^verbatim>\<open>memcmp\<close> over two byte sequences of one length: the sign of the first difference.\<close>

fun memcmp :: "u8 list \<Rightarrow> u8 list \<Rightarrow> int" where
  "memcmp (x # xs) (y # ys) = (if x \<noteq> y then (if x < y then - 1 else 1) else memcmp xs ys)"
| "memcmp _ _ = 0"

definition cmp_cidr :: "u8 list \<Rightarrow> u8 list \<Rightarrow> int" where
  "cmp_cidr data1 data2 =
     (let len1 = length data1; len2 = length data2 in
      if len1 \<noteq> len2 then (if len1 < len2 then - 1 else 1)
      else if len1 = sizeof_IPv4Network then
        (let net1 = load_IPv4Network data1; net2 = load_IPv4Network data2 in
         if address net1 \<noteq> address net2 then (if address net1 < address net2 then - 1 else 1)
         else if netmask net1 \<noteq> netmask net2 then (if netmask net1 < netmask net2 then - 1 else 1)
         else 0)
      else if len1 = sizeof_IPv6Network then
        (let net1 = load_IPv6Network data1; net2 = load_IPv6Network data2;
             addr_cmp = memcmp (take 16 (address6 net1)) (take 16 (address6 net2)) in
         if addr_cmp \<noteq> 0 then (if addr_cmp < 0 then - 1 else 1)
         else if netmask6 net1 \<noteq> netmask6 net2 then (if netmask6 net1 < netmask6 net2 then - 1 else 1)
         else 0)
      else
        (let result = memcmp (take len1 data1) (take len1 data2) in
         if result = 0 then 0 else if result < 0 then - 1 else 1))"

definition cmp_inet :: "u8 list \<Rightarrow> u8 list \<Rightarrow> int" where
  "cmp_inet data1 data2 = cmp_cidr data1 data2"

section \<open>C library functions used by the parsers\<close>

text \<open>
  A \<^verbatim>\<open>const char *\<close> denotes the characters up to the first NUL. Pointers into a string
  are the remaining suffix: \<^verbatim>\<open>*p == '\0'\<close> is \<open>p = []\<close>.
\<close>

definition c_str :: "string \<Rightarrow> string" where
  "c_str s = takeWhile (\<lambda>c. c \<noteq> CHR 0x00) s"

definition isspace :: "char \<Rightarrow> bool" where
  "isspace c = (c = CHR '' '' \<or> (9 \<le> (of_char c :: nat) \<and> (of_char c :: nat) \<le> 13))"

definition digit_val :: "nat \<Rightarrow> char \<Rightarrow> nat option" where
  "digit_val base c =
     (let n = (of_char c :: nat);
          v = (if 48 \<le> n \<and> n \<le> 57 then n - 48
               else if 97 \<le> n \<and> n \<le> 122 then n - 87
               else if 65 \<le> n \<and> n \<le> 90 then n - 55
               else base)
      in if v < base then Some v else None)"

fun scan_digits :: "nat \<Rightarrow> nat \<Rightarrow> string \<Rightarrow> nat \<times> string" where
  "scan_digits base acc [] = (acc, [])"
| "scan_digits base acc (c # cs) =
     (case digit_val base c of
        None \<Rightarrow> (acc, c # cs)
      | Some d \<Rightarrow> scan_digits base (acc * base + d) cs)"

fun split_sign :: "string \<Rightarrow> bool \<times> string" where
  "split_sign [] = (False, [])"
| "split_sign (c # cs) =
     (if c = CHR ''-'' then (True, cs)
      else if c = CHR ''+'' then (False, cs)
      else (False, c # cs))"

definition skip_0x :: "string \<Rightarrow> string" where
  "skip_0x s =
     (case s of
        z # x # h # r \<Rightarrow>
          if z = CHR ''0'' \<and> (x = CHR ''x'' \<or> x = CHR ''X'') \<and> digit_val 16 h \<noteq> None
          then h # r else s
      | _ \<Rightarrow> s)"

text \<open>
  The subject sequence of \<^verbatim>\<open>strtol\<close>/\<^verbatim>\<open>strtoul\<close> and of the \<^verbatim>\<open>%d\<close>/\<^verbatim>\<open>%u\<close>
  conversions: white space, an optional sign, for base 16 an optional \<^verbatim>\<open>0x\<close>, and at least
  one digit. The result is the sign, the magnitude and the rest of the input; \<open>None\<close> when
  there is no digit (no conversion is performed).
\<close>

definition scan_number :: "nat \<Rightarrow> string \<Rightarrow> (bool \<times> nat \<times> string) option" where
  "scan_number base p =
     (let (neg, s2) = split_sign (dropWhile isspace p);
          s3 = (if base = 16 then skip_0x s2 else s2)
      in case s3 of
           [] \<Rightarrow> None
         | c # _ \<Rightarrow>
             if digit_val base c = None then None
             else (let (v, rest) = scan_digits base 0 s3 in Some (neg, v, rest)))"

definition ULONG_MAX :: nat where "ULONG_MAX = 2 ^ 64 - 1"
definition LONG_MAX :: int where "LONG_MAX = 2 ^ 63 - 1"
definition LONG_MIN :: int where "LONG_MIN = - (2 ^ 63)"

text \<open>
  \<^verbatim>\<open>strtoul(p, &end, base)\<close> with a 64-bit \<^verbatim>\<open>unsigned long\<close>: \<open>None\<close> stands for
  \<^verbatim>\<open>end == p\<close>; otherwise the value (clamped on overflow, negated modulo \<open>2 ^ 64\<close> after a
  minus sign) and \<^verbatim>\<open>end\<close>.
\<close>

definition strtoul :: "string \<Rightarrow> nat \<Rightarrow> (nat \<times> string) option" where
  "strtoul p base =
     (case scan_number base p of
        None \<Rightarrow> None
      | Some (neg, v, rest) \<Rightarrow>
          Some (if ULONG_MAX < v then ULONG_MAX
                else if neg then (2 ^ 64 - v) mod 2 ^ 64 else v, rest))"

definition strtol :: "string \<Rightarrow> nat \<Rightarrow> (int \<times> string) option" where
  "strtol p base =
     (case scan_number base p of
        None \<Rightarrow> None
      | Some (neg, v, rest) \<Rightarrow>
          Some (if neg then max LONG_MIN (- int v) else min LONG_MAX (int v), rest))"

text \<open>
  The conversions \<^verbatim>\<open>%u\<close> and \<^verbatim>\<open>%d\<close> of \<^verbatim>\<open>sscanf\<close>: the number is read as by
  \<^verbatim>\<open>strtoul\<close>/\<^verbatim>\<open>strtol\<close> in base 10 and stored into a 32-bit object, which keeps its low
  32 bits (the C library's behaviour when the number does not fit; the language leaves that case
  open).
\<close>

definition scanf_u :: "string \<Rightarrow> (nat \<times> string) option" where
  "scanf_u s = (case strtoul s 10 of None \<Rightarrow> None | Some (v, rest) \<Rightarrow> Some (v mod 2 ^ 32, rest))"

definition scanf_d :: "string \<Rightarrow> (int \<times> string) option" where
  "scanf_d s =
     (case strtol s 10 of
        None \<Rightarrow> None
      | Some (v, rest) \<Rightarrow> Some ((v + 2 ^ 31) mod 2 ^ 32 - 2 ^ 31, rest))"

text \<open>\<^verbatim>\<open>snprintf\<close> into a buffer of \<open>n\<close> bytes keeps at most \<open>n - 1\<close> characters.\<close>

definition snprintf :: "nat \<Rightarrow> string \<Rightarrow> string" where
  "snprintf n s = take (n - 1) s"

text \<open>The conversions \<^verbatim>\<open>%u\<close> and \<^verbatim>\<open>%02x\<close> of \<^verbatim>\<open>snprintf\<close>.\<close>

definition digit_char :: "nat \<Rightarrow> char" where
  "digit_char d = ''0123456789abcdef'' ! d"

function fmt_u :: "nat \<Rightarrow> string" where
  "fmt_u n = (if n < 10 then [digit_char n] else fmt_u (n div 10) @ [digit_char (n mod 10)])"
  by pat_completeness auto
termination
  by (relation "measure id") auto

declare fmt_u.simps [simp del]

definition fmt_02x :: "u8 \<Rightarrow> string" where
  "fmt_02x b = [digit_char (unat b div 16), digit_char (unat b mod 16)]"

section \<open>Numeric address parsers and formatters\<close>

text \<open>
  \<^verbatim>\<open>sscanf(addr_str, "%u.%u.%u.%u", &a, &b, &c, &d)\<close>: the values converted before the first
  failure; the return value of \<^verbatim>\<open>sscanf\<close> is their number.
\<close>

fun scan_dotted :: "nat \<Rightarrow> string \<Rightarrow> nat list" where
  "scan_dotted 0 s = []"
| "scan_dotted (Suc n) s =
     (case scanf_u s of
        None \<Rightarrow> []
      | Some (v, rest) \<Rightarrow>
          v # (if n = 0 then []
               else (case rest of
                       [] \<Rightarrow> []
                     | c # r \<Rightarrow> if c = CHR ''.'' then scan_dotted n r else [])))"

definition parse_ipv4_address :: "string \<Rightarrow> u32 option" where
  "parse_ipv4_address addr_str =
     (case scan_dotted 4 (c_str addr_str) of
        [a, b, c, d] \<Rightarrow>
          if a > 255 \<or> b > 255 \<or> c > 255 \<or> d > 255 then None
          else Some (push_bit 24 (of_nat a) OR push_bit 16 (of_nat b)
                     OR push_bit 8 (of_nat c) OR of_nat d)
      | _ \<Rightarrow> None)"

definition format_ipv4_address :: "u32 \<Rightarrow> nat \<Rightarrow> string" where
  "format_ipv4_address a buffer_size =
     snprintf buffer_size
       (fmt_u (unat (drop_bit 24 a AND 0xFF)) @ ''.'' @ fmt_u (unat (drop_bit 16 a AND 0xFF))
        @ ''.'' @ fmt_u (unat (drop_bit 8 a AND 0xFF)) @ ''.'' @ fmt_u (unat (a AND 0xFF)))"

text \<open>
  The group loop of \<^verbatim>\<open>parse_ipv6_address\<close> (the same loop is written three times):
  \<^verbatim>\<open>while (*p && parts < 8)\<close>, the first argument counting the iterations left. \<open>None\<close> is
  \<^verbatim>\<open>return false\<close>, \<open>Some\<close> the groups stored when the loop is left.
\<close>

fun parse_groups :: "nat \<Rightarrow> string \<Rightarrow> nat list option" where
  "parse_groups 0 p = Some []"
| "parse_groups (Suc n) p =
     (if p = [] then Some []
      else (case strtoul p 16 of
              None \<Rightarrow> None
            | Some (val, e) \<Rightarrow>
                if val > 0xFFFF then None
                else (case e of
                        [] \<Rightarrow> Some [val]
                      | c # r \<Rightarrow>
                          if c = CHR '':'' then map_option ((#) val) (parse_groups n r)
                          else None)))"

text \<open>\<^verbatim>\<open>strstr(addr_str, "::")\<close>: the text before and after the first \<^verbatim>\<open>::\<close>.\<close>

fun strstr_dcolon :: "string \<Rightarrow> (string \<times> string) option" where
  "strstr_dcolon [] = None"
| "strstr_dcolon [c] = None"
| "strstr_dcolon (c # d # cs) =
     (if c = CHR '':'' \<and> d = CHR '':'' then Some ([], cs)
      else map_option (\<lambda>(l, r). (c # l, r)) (strstr_dcolon (d # cs)))"

definition group_bytes :: "nat list \<Rightarrow> u8 list" where
  "group_bytes vs = concat (map (\<lambda>v. [of_nat (v div 256 mod 256), of_nat (v mod 256)]) vs)"

definition parse_ipv6_address :: "string \<Rightarrow> u8 list option" where
  "parse_ipv6_address addr_str =
     (let s = c_str addr_str in
      case strstr_dcolon s of
        Some (left_str, right_start) \<Rightarrow>
          (case (if left_str \<noteq> [] then parse_groups 8 left_str else Some []) of
             None \<Rightarrow> None
           | Some left_values \<Rightarrow>
               (case (if right_start \<noteq> [] then parse_groups 8 right_start else Some []) of
                  None \<Rightarrow> None
                | Some right_values \<Rightarrow>
                    if length left_values + length right_values > 7 then None
                    else Some (group_bytes left_values
                               @ replicate (2 * (8 - length left_values - length right_values)) 0
                               @ group_bytes right_values)))
      | None \<Rightarrow>
          (case parse_groups 8 s of
             None \<Rightarrow> None
           | Some parts \<Rightarrow> if length parts \<noteq> 8 then None else Some (group_bytes parts)))"

definition format_ipv6_address :: "u8 list \<Rightarrow> nat \<Rightarrow> string" where
  "format_ipv6_address a buffer_size =
     snprintf buffer_size
       (fmt_02x (a ! 0) @ fmt_02x (a ! 1) @ '':'' @ fmt_02x (a ! 2) @ fmt_02x (a ! 3) @ '':''
        @ fmt_02x (a ! 4) @ fmt_02x (a ! 5) @ '':'' @ fmt_02x (a ! 6) @ fmt_02x (a ! 7) @ '':''
        @ fmt_02x (a ! 8) @ fmt_02x (a ! 9) @ '':'' @ fmt_02x (a ! 10) @ fmt_02x (a ! 11) @ '':''
        @ fmt_02x (a ! 12) @ fmt_02x (a ! 13) @ '':'' @ fmt_02x (a ! 14) @ fmt_02x (a ! 15))"

section \<open>Prefix and mask arithmetic\<close>

text \<open>
  \<^verbatim>\<open>validate_cidr_network\<close>: the shift \<^verbatim>\<open>1u << (32 - netmask)\<close> is reached with
  \<open>netmask\<close> between 1 and 32 only, an amount between 0 and 31.
\<close>

definition validate_cidr_network :: "u32 \<Rightarrow> u8 \<Rightarrow> bool" where
  "validate_cidr_network a nm =
     (if nm > IPV4_MAX_PREFIXLEN then False
      else if nm = 0 then True
      else (let mask = NOT (push_bit (unat IPV4_MAX_PREFIXLEN - unat nm) (1 :: u32) - 1)
            in a AND NOT mask = 0))"

definition validate_cidr_network_ipv6 :: "u8 list \<Rightarrow> u8 \<Rightarrow> bool" where
  "validate_cidr_network_ipv6 a nm =
     (if nm > IPV6_MAX_PREFIXLEN then False
      else if nm = 0 then True
      else (let full_bytes = unat nm div 8; remaining_bits = unat nm mod 8 in
            if remaining_bits > 0 then
              (let mask = push_bit (8 - remaining_bits) (0xFF :: u8) in
               if (a ! full_bytes) AND NOT mask \<noteq> 0 then False
               else list_all (\<lambda>i. a ! i = 0) [full_bytes + 1 ..< 16])
            else list_all (\<lambda>i. a ! i = 0) [full_bytes ..< 16]))"

text \<open>
  A left shift of a 32-bit unsigned value is defined for amounts below 32 only; \<open>None\<close> is
  the undefined case.
\<close>

definition shl_u32 :: "u32 \<Rightarrow> int \<Rightarrow> u32 option" where
  "shl_u32 x n = (if 0 \<le> n \<and> n < 32 then Some (push_bit (nat n) x) else None)"

definition prefix_to_netmask_ipv4 :: "u8 \<Rightarrow> u32 option" where
  "prefix_to_netmask_ipv4 prefix_len =
     (if prefix_len = 0 then Some 0
      else if prefix_len \<ge> 32 then Some 0xFFFFFFFF
      else (case shl_u32 1 (32 - uint prefix_len) of
              None \<Rightarrow> None
            | Some x \<Rightarrow> Some (NOT (x - 1))))"

definition prefix_to_hostmask_ipv4 :: "u8 \<Rightarrow> u32 option" where
  "prefix_to_hostmask_ipv4 prefix_len =
     (if prefix_len \<ge> 32 then Some 0
      else (case shl_u32 1 (32 - uint prefix_len) of
              None \<Rightarrow> None
            | Some x \<Rightarrow> Some (x - 1)))"

text \<open>
  The IPv6 masks are built in a 16-byte array that starts as zeros; the writes are guarded by
  \<^verbatim>\<open>i < 16\<close> and \<^verbatim>\<open>full_bytes < 16\<close>, and the byte shifts are by 1 to 7 bits.
\<close>

definition prefix_to_netmask_ipv6 :: "u8 \<Rightarrow> u8 list" where
  "prefix_to_netmask_ipv6 prefix_len =
     (let full_bytes = unat prefix_len div 8; remaining_bits = unat prefix_len mod 8;
          m = map (\<lambda>i. if i < full_bytes then 0xFF else 0) [0 ..< 16]
      in if full_bytes < 16 \<and> remaining_bits > 0
         then m[full_bytes := push_bit (8 - remaining_bits) 0xFF]
         else m)"

definition prefix_to_hostmask_ipv6 :: "u8 \<Rightarrow> u8 list" where
  "prefix_to_hostmask_ipv6 prefix_len =
     (let full_bytes = unat prefix_len div 8; remaining_bits = unat prefix_len mod 8;
          z = replicate 16 (0 :: u8);
          (h, first_full) =
            (if full_bytes < 16 \<and> remaining_bits > 0
             then (z[full_bytes := NOT (push_bit (8 - remaining_bits) 0xFF)], full_bytes + 1)
             else (z, full_bytes))
      in map (\<lambda>i. if first_full \<le> i then 0xFF else h ! i) [0 ..< 16])"

section \<open>Binary codec\<close>

text \<open>
  The functions return \<^verbatim>\<open>true\<close> on error. \<open>Failure\<close> is a plain \<^verbatim>\<open>return true\<close>,
  \<open>Invalid\<close> is \<^verbatim>\<open>return MarkInvalid(length)\<close>, which also sets the length to 0.
  On success the result is the bytes written, whose number is the length reported. The
  buffers passed in are taken to be non-null.
\<close>

datatype error = Failure | Invalid

text \<open>
  \<^verbatim>\<open>sscanf(from_str.c_str(), "%63[^/]/%d", addr_str, &netmask)\<close>: the items assigned; the
  return value is 2 when both are.
\<close>

definition sscanf_addr_netmask :: "string \<Rightarrow> string option \<times> int option" where
  "sscanf_addr_netmask s =
     (let a = takeWhile (\<lambda>c. c \<noteq> CHR ''/'') (take 63 s); rest = drop (length a) s in
      if a = [] then (None, None)
      else (case rest of
              [] \<Rightarrow> (Some a, None)
            | c # r \<Rightarrow>
                if c = CHR ''/'' then
                  (case scanf_d r of
                     None \<Rightarrow> (Some a, None)
                   | Some (v, _) \<Rightarrow> (Some a, Some v))
                else (Some a, None)))"

definition encode_cidr :: "u8 \<Rightarrow> nat \<Rightarrow> string \<Rightarrow> error + u8 list" where
  "encode_cidr pad buffer_size from_str =
     (if buffer_size < sizeof_IPv4Network then Inl Failure
      else (case sscanf_addr_netmask (c_str from_str) of
              (Some addr_str, Some nm) \<Rightarrow>
                (case parse_ipv4_address addr_str of
                   Some a \<Rightarrow>
                     if nm < 0 \<or> nm > uint IPV4_MAX_PREFIXLEN then Inl Invalid
                     else (let net4 = \<lparr>address = a, netmask = of_int nm,
                                       family = AF_INET_VAL, flags = ADDR_FLAG_CIDR\<rparr> in
                           if \<not> validate_cidr_network (address net4) (netmask net4)
                           then Inl Invalid
                           else Inr (store_IPv4Network pad net4))
                 | None \<Rightarrow>
                     if buffer_size < sizeof_IPv6Network then Inl Failure
                     else (case parse_ipv6_address addr_str of
                             Some a6 \<Rightarrow>
                               if nm < 0 \<or> nm > uint IPV6_MAX_PREFIXLEN then Inl Invalid
                               else (let net6 = \<lparr>address6 = a6, netmask6 = of_int nm,
                                                 family6 = AF_INET6_VAL, flags6 = ADDR_FLAG_CIDR\<rparr> in
                                     if \<not> validate_cidr_network_ipv6 (address6 net6) (netmask6 net6)
                                     then Inl Invalid
                                     else Inr (store_IPv6Network net6))
                           | None \<Rightarrow> Inl Invalid))
            | _ \<Rightarrow> Inl Invalid))"

definition encode_inet :: "u8 \<Rightarrow> nat \<Rightarrow> string \<Rightarrow> error + u8 list" where
  "encode_inet pad buffer_size from_str =
     (if buffer_size < sizeof_IPv4Network then Inl Failure
      else (let (addr_str, nm0) =
                  (case sscanf_addr_netmask (c_str from_str) of
                     (Some a, Some v) \<Rightarrow> (a, v)
                   | _ \<Rightarrow> (take 63 (c_str from_str), - 1))
            in case parse_ipv4_address addr_str of
                 Some a \<Rightarrow>
                   (let nm = (if nm0 = - 1 then uint IPV4_MAX_PREFIXLEN else nm0) in
                    if nm < 0 \<or> nm > uint IPV4_MAX_PREFIXLEN then Inl Invalid
                    else Inr (store_IPv4Network pad
                                \<lparr>address = a, netmask = of_int nm,
                                 family = AF_INET_VAL, flags = ADDR_FLAG_INET\<rparr>))
               | None \<Rightarrow>
                   if buffer_size < sizeof_IPv6Network then Inl Failure
                   else (case parse_ipv6_address addr_str of
                           Some a6 \<Rightarrow>
                             (let nm = (if nm0 = - 1 then uint IPV6_MAX_PREFIXLEN else nm0) in
                              if nm < 0 \<or> nm > uint IPV6_MAX_PREFIXLEN then Inl Invalid
                              else Inr (store_IPv6Network
                                          \<lparr>address6 = a6, netmask6 = of_int nm,
                                           family6 = AF_INET6_VAL, flags6 = ADDR_FLAG_INET\<rparr>))
                         | None \<Rightarrow> Inl Invalid)))"

definition decode_cidr :: "u8 list \<Rightarrow> nat \<Rightarrow> error + string" where
  "decode_cidr buffer to_size =
     (let buffer_size = length buffer in
      if buffer_size < sizeof_IPv4Network then Inl Failure
      else if buffer ! 5 = AF_INET_VAL \<and> buffer_size \<ge> sizeof_IPv4Network then
        (let net = load_IPv4Network buffer;
             addr_str = format_ipv4_address (address net) 32;
             result = snprintf 64 (addr_str @ ''/'' @ fmt_u (unat (netmask net)))
         in if length result + 1 > to_size then Inl Failure else Inr result)
      else if buffer_size \<ge> sizeof_IPv6Network \<and> buffer ! 17 = AF_INET6_VAL then
        (let net = load_IPv6Network buffer;
             addr_str = format_ipv6_address (address6 net) kMaxIPv6String;
             result = snprintf kMaxIPv6String (addr_str @ ''/'' @ fmt_u (unat (netmask6 net)))
         in if length result + 1 > to_size then Inl Failure else Inr result)
      else Inl Failure)"

definition decode_inet :: "u8 list \<Rightarrow> nat \<Rightarrow> error + string" where
  "decode_inet buffer to_size =
     (let buffer_size = length buffer in
      if buffer_size < sizeof_IPv4Network then Inl Failure
      else if buffer ! 5 = AF_INET_VAL \<and> buffer_size \<ge> sizeof_IPv4Network then
        (let net = load_IPv4Network buffer;
             addr_str = format_ipv4_address (address net) 32;
             result = (if netmask net = IPV4_MAX_PREFIXLEN then snprintf 64 addr_str
                       else snprintf 64 (addr_str @ ''/'' @ fmt_u (unat (netmask net))))
         in if length result + 1 > to_size then Inl Failure else Inr result)
      else if buffer_size \<ge> sizeof_IPv6Network \<and> buffer ! 17 = AF_INET6_VAL then
        (let net = load_IPv6Network buffer;
             addr_str = format_ipv6_address (address6 net) kMaxIPv6String;
             result = (if netmask6 net = IPV6_MAX_PREFIXLEN then snprintf kMaxIPv6String addr_str
                       else snprintf kMaxIPv6String
                              (addr_str @ ''/'' @ fmt_u (unat (netmask6 net))))
         in if length result + 1 > to_size then Inl Failure else Inr result)
      else Inl Failure)"

section \<open>Extractors and network arithmetic\<close>

definition get_address_family :: "u8 list \<Rightarrow> u8" where
  "get_address_family buffer =
     (if length buffer < sizeof_IPv4Network then 0
      else if buffer ! 5 = AF_INET_VAL then AF_INET_VAL
      else if length buffer \<ge> sizeof_IPv6Network \<and> buffer ! 17 = AF_INET6_VAL then AF_INET6_VAL
      else 0)"

definition inet_family :: "u8 list \<Rightarrow> int" where
  "inet_family buffer =
     (let fam = get_address_family buffer in
      if fam = AF_INET_VAL then 4 else if fam = AF_INET6_VAL then 6 else - 1)"

definition inet_masklen :: "u8 list \<Rightarrow> int" where
  "inet_masklen buffer =
     (if length buffer < sizeof_IPv4Network then - 1
      else (let fam = get_address_family buffer in
            if fam = AF_INET_VAL then uint (buffer ! 4)
            else if fam = AF_INET6_VAL then uint (buffer ! 16)
            else - 1))"

text \<open>
  \<^verbatim>\<open>inet_network\<close> and \<^verbatim>\<open>cidr_set_masklen\<close> build a record flagged as CIDR from the
  address masked with the netmask. The IPv4 netmask is computed by \<open>prefix_to_netmask_ipv4\<close>,
  whose shift is always defined (lemma \<open>prefix_to_netmask_ipv4_defined\<close> below).
\<close>

definition inet_network :: "u8 \<Rightarrow> u8 list \<Rightarrow> error + u8 list" where
  "inet_network pad buffer =
     (if length buffer < sizeof_IPv4Network then Inl Failure
      else (let fam = get_address_family buffer in
            if fam = AF_INET_VAL \<and> length buffer \<ge> sizeof_IPv4Network then
              (let net = load_IPv4Network buffer;
                   nmask = the (prefix_to_netmask_ipv4 (netmask net));
                   network_addr = address net AND nmask
               in Inr (store_IPv4Network pad
                         \<lparr>address = network_addr, netmask = netmask net,
                          family = AF_INET_VAL, flags = ADDR_FLAG_CIDR\<rparr>))
            else if fam = AF_INET6_VAL \<and> length buffer \<ge> sizeof_IPv6Network then
              (let net = load_IPv6Network buffer;
                   nmask = prefix_to_netmask_ipv6 (netmask6 net)
               in Inr (store_IPv6Network
                         \<lparr>address6 = map (\<lambda>i. (address6 net ! i) AND (nmask ! i)) [0 ..< 16],
                          netmask6 = netmask6 net,
                          family6 = AF_INET6_VAL, flags6 = ADDR_FLAG_CIDR\<rparr>))
            else Inl Failure))"

definition cidr_set_masklen :: "u8 \<Rightarrow> u8 list \<Rightarrow> int \<Rightarrow> error + u8 list" where
  "cidr_set_masklen pad buffer new_masklen =
     (if length buffer < sizeof_IPv4Network then Inl Failure
      else (let fam = get_address_family buffer in
            if fam = AF_INET_VAL \<and> length buffer \<ge> sizeof_IPv4Network then
              (if new_masklen < 0 \<or> new_masklen > 32 then Inl Failure
               else (let net = load_IPv4Network buffer;
                         nmask = the (prefix_to_netmask_ipv4 (of_int new_masklen));
                         network_addr = address net AND nmask
                     in Inr (store_IPv4Network pad
                               \<lparr>address = network_addr, netmask = of_int new_masklen,
                                family = AF_INET_VAL, flags = ADDR_FLAG_CIDR\<rparr>)))
            else if fam = AF_INET6_VAL \<and> length buffer \<ge> sizeof_IPv6Network then
              (if new_masklen < 0 \<or> new_masklen > 128 then Inl Failure
               else (let net = load_IPv6Network buffer;
                         nmask = prefix_to_netmask_ipv6 (of_int new_masklen)
                     in Inr (store_IPv6Network
                               \<lparr>address6 = map (\<lambda>i. (address6 net ! i) AND (nmask ! i)) [0 ..< 16],
                                netmask6 = of_int new_masklen,
                                family6 = AF_INET6_VAL, flags6 = ADDR_FLAG_CIDR\<rparr>)))
            else Inl Failure))"

section \<open>Auxiliary notions for the statements\<close>

text \<open>Three-way comparison on a linear order, and the sort key that \<open>cmp_cidr\<close> orders by.\<close>

definition cmp3 :: "'a::linorder \<Rightarrow> 'a \<Rightarrow> int" where
  "cmp3 x y = (if x < y then - 1 else if x = y then 0 else 1)"

definition cmp_key :: "u8 list \<Rightarrow> nat \<times> u32 \<times> u8 list" where
  "cmp_key d =
     (length d,
      if length d = sizeof_IPv4Network then (load_u32 d, [d ! 4])
      else if length d = sizeof_IPv6Network then (0, take 16 d @ [d ! 16])
      else (0, d))"

text \<open>The host bits of an IPv4 record: \<^verbatim>\<open>address & ~netmask(prefix)\<close>.\<close>

definition host_bits_ipv4 :: "IPv4Network \<Rightarrow> u32 option" where
  "host_bits_ipv4 net =
     (case prefix_to_netmask_ipv4 (netmask net) of
        None \<Rightarrow> None
      | Some m \<Rightarrow> Some (address net AND NOT m))"

text \<open>The host bits of an IPv6 record, byte by byte.\<close>

definition host_bits_ipv6 :: "IPv6Network \<Rightarrow> u8 list" where
  "host_bits_ipv6 net =
     map (\<lambda>i. (address6 net ! i) AND NOT (prefix_to_netmask_ipv6 (netmask6 net) ! i)) [0 ..< 16]"

text \<open>The records of \<^verbatim>\<open>2001:db8:2::1\<close> (permissive, /128) and \<^verbatim>\<open>192.168.1.5/24\<close> (permissive,
  with its padding byte).\<close>

definition record_2001_db8_2_1 :: "u8 list" where
  "record_2001_db8_2_1 =
     [0x20, 0x01, 0x0d, 0xb8, 0x00, 0x02, 0, 0, 0, 0, 0, 0, 0, 0, 0, 0x01, 128, 10, 2]"

definition record_192_168_1_5_24 :: "u8 \<Rightarrow> u8 list" where
  "record_192_168_1_5_24 pad = [5, 1, 168, 192, 24, 2, 2, pad]"

section \<open>Evaluation rules\<close>

text \<open>
  The definitions grouped for evaluating the model on concrete inputs by rewriting, and the
  recursion equations of the loops restated for numerals.
\<close>

lemmas clib_defs = c_str_def isspace_def digit_val_def skip_0x_def scan_number_def ULONG_MAX_def
  LONG_MAX_def LONG_MIN_def strtoul_def strtol_def scanf_u_def scanf_d_def snprintf_def
  digit_char_def fmt_02x_def

lemmas const_defs = ADDR_FLAG_CIDR_def ADDR_FLAG_INET_def AF_INET_VAL_def AF_INET6_VAL_def
  IPV4_MAX_PREFIXLEN_def IPV6_MAX_PREFIXLEN_def kMaxIPv6String_def
  sizeof_IPv4Network_def sizeof_IPv6Network_def

lemmas layout_defs = store_u32_def load_u32_def store_IPv4Network_def load_IPv4Network_def
  store_IPv6Network_def load_IPv6Network_def

lemmas parse_defs = parse_ipv4_address_def parse_ipv6_address_def group_bytes_def
  format_ipv4_address_def format_ipv6_address_def sscanf_addr_netmask_def

lemmas codec_defs = encode_cidr_def encode_inet_def decode_cidr_def decode_inet_def
  validate_cidr_network_def validate_cidr_network_ipv6_def get_address_family_def
  inet_family_def inet_masklen_def

lemmas mask_defs = shl_u32_def prefix_to_netmask_ipv4_def prefix_to_hostmask_ipv4_def
  prefix_to_netmask_ipv6_def prefix_to_hostmask_ipv6_def host_bits_ipv4_def

lemma scan_dotted_numeral:
  "scan_dotted (numeral k) s =
     (case scanf_u s of
        None \<Rightarrow> []
      | Some (v, rest) \<Rightarrow>
          v # (if pred_numeral k = 0 then []
               else (case rest of
                       [] \<Rightarrow> []
                     | c # r \<Rightarrow> if c = CHR ''.'' then scan_dotted (pred_numeral k) r else [])))"
  by (subst numeral_eq_Suc) (rule scan_dotted.simps(2))

lemma parse_groups_numeral:
  "parse_groups (numeral k) p =
     (if p = [] then Some []
      else (case strtoul p 16 of
              None \<Rightarrow> None
            | Some (val, e) \<Rightarrow>
                if val > 0xFFFF then None
                else (case e of
                        [] \<Rightarrow> Some [val]
                      | c # r \<Rightarrow>
                          if c = CHR '':'' then map_option ((#) val) (parse_groups (pred_numeral k) r)
                          else None)))"
  by (subst numeral_eq_Suc) (rule parse_groups.simps(2))

lemma replicate_numeral: "replicate (numeral k) x = x # replicate (pred_numeral k) x"
  by (simp add: numeral_eq_Suc)

lemma fmt_u_numeral:
  "fmt_u (numeral k) =
     (if numeral k < (10 :: nat) then [digit_char (numeral k)]
      else fmt_u (numeral k div 10) @ [digit_char (numeral k mod 10)])"
  by (rule fmt_u.simps)

lemma fmt_u_0: "fmt_u 0 = ''0''"
  by (simp add: fmt_u.simps [of 0] digit_char_def)

lemma fmt_u_1: "fmt_u (Suc 0) = ''1''"
  by (simp add: fmt_u.simps [of "Suc 0"] digit_char_def)

lemmas eval_simps = scan_dotted_numeral parse_groups_numeral replicate_numeral
  fmt_u_numeral fmt_u_0 fmt_u_1 Let_def

section \<open>The comparator is a total order\<close>

lemma memcmp_cmp3: "length xs = length ys \<Longrightarrow> memcmp xs ys = cmp3 xs ys"
  by (induction xs ys rule: list_induct2) (auto simp: cmp3_def)

lemma snoc_less:
  "length xs = length ys \<Longrightarrow> (xs @ [x] < ys @ [y]) = (xs < ys \<or> xs = ys \<and> x < y)"
  by (induction xs ys rule: list_induct2) auto

lemma cmp_cidr_key: "cmp_cidr a b = cmp3 (cmp_key a) (cmp_key b)"
  by (auto simp: cmp_cidr_def cmp_key_def Let_def cmp3_def memcmp_cmp3 snoc_less
      load_IPv4Network_def load_IPv6Network_def sizeof_IPv4Network_def sizeof_IPv6Network_def)

lemma cmp3_refl: "cmp3 x x = 0"
  by (simp add: cmp3_def)

lemma cmp3_sym: "cmp3 x y = - cmp3 y x"
  by (auto simp: cmp3_def)

lemma cmp3_range: "cmp3 x y \<in> {- 1, 0, 1}"
  by (auto simp: cmp3_def)

lemma cmp3_trans: "cmp3 x y \<le> 0 \<Longrightarrow> cmp3 y z \<le> 0 \<Longrightarrow> cmp3 x z \<le> 0"
  by (auto simp: cmp3_def split: if_splits)

lemma cmp3_eq: "cmp3 x y = 0 \<longleftrightarrow> x = y"
  by (auto simp: cmp3_def)

lemma store_load4: "store_u32 (load_u32 (b0 # b1 # b2 # b3 # rest)) = [b0, b1, b2, b3]"
  apply (simp add: store_u32_def load_u32_def)
  apply (intro conjI; rule bit_word_eqI; simp add: bit_simps; auto dest: bit_imp_le_length)
  done

lemma load_store: "load_u32 (store_u32 w) = w"
proof (rule bit_word_eqI)
  fix n assume n: "n < LENGTH(32)"
  consider "n < 8" | "8 \<le> n" "n < 16" | "16 \<le> n" "n < 24" | "24 \<le> n" "n < 32"
    using n by fastforce
  then show "bit (load_u32 (store_u32 w)) n = bit w n"
    by cases (auto simp: store_u32_def load_u32_def bit_simps)
qed

lemma len_ge4: "4 \<le> length a \<Longrightarrow> \<exists>b0 b1 b2 b3 r. a = b0 # b1 # b2 # b3 # r"
  by (cases a; cases "tl a"; cases "tl (tl a)"; cases "tl (tl (tl a))") auto

lemma load_u32_take4:
  assumes "4 \<le> length a" "4 \<le> length b" "load_u32 a = load_u32 b"
  shows "take 4 a = take 4 b"
proof -
  obtain a0 a1 a2 a3 ra where a: "a = a0 # a1 # a2 # a3 # ra"
    using len_ge4 [OF assms(1)] by blast
  obtain b0 b1 b2 b3 rb where b: "b = b0 # b1 # b2 # b3 # rb"
    using len_ge4 [OF assms(2)] by blast
  have "[a0, a1, a2, a3] = store_u32 (load_u32 a)"
    by (simp add: a store_load4)
  also have "\<dots> = [b0, b1, b2, b3]"
    by (simp add: assms(3) b store_load4)
  finally show ?thesis by (simp add: a b)
qed

lemma take_Suc_eq:
  "n < length a \<Longrightarrow> n < length b \<Longrightarrow> take n a = take n b \<Longrightarrow> a ! n = b ! n
     \<Longrightarrow> take (Suc n) a = take (Suc n) b"
  by (simp add: take_Suc_conv_app_nth)

lemma take_drop_eq: "take n a = take n b \<Longrightarrow> drop n a = drop n b \<Longrightarrow> a = b"
  by (metis append_take_drop_id)

lemma cmp_cidr_zero4:
  assumes "cmp_cidr a b = 0" "length a = sizeof_IPv4Network"
  shows "take 5 a = take 5 b"
proof -
  have k: "cmp_key a = cmp_key b"
    using assms(1) by (simp add: cmp_cidr_key cmp3_eq)
  then have l: "length b = 8" "length a = 8"
    using assms(2) by (auto simp: cmp_key_def sizeof_IPv4Network_def)
  from k l have "load_u32 a = load_u32 b" "a ! 4 = b ! 4"
    by (auto simp: cmp_key_def sizeof_IPv4Network_def)
  moreover then have "take 4 a = take 4 b"
    using l by (intro load_u32_take4) auto
  ultimately have "take (Suc 4) a = take (Suc 4) b"
    using l by (intro take_Suc_eq) auto
  then show ?thesis by simp
qed

lemma cmp_cidr_zero6:
  assumes "cmp_cidr a b = 0" "length a = sizeof_IPv6Network"
  shows "take 17 a = take 17 b"
proof -
  have k: "cmp_key a = cmp_key b"
    using assms(1) by (simp add: cmp_cidr_key cmp3_eq)
  then have l: "length b = 19" "length a = 19"
    using assms(2) by (auto simp: cmp_key_def sizeof_IPv6Network_def)
  from k l have "take 16 a = take 16 b" "a ! 16 = b ! 16"
    by (auto simp: cmp_key_def sizeof_IPv6Network_def sizeof_IPv4Network_def)
  then have "take (Suc 16) a = take (Suc 16) b"
    using l by (intro take_Suc_eq) auto
  then show ?thesis by simp
qed

lemma memcmp_first_diff:
  "length xs = length ys \<Longrightarrow> i < length xs \<Longrightarrow> \<forall>j<i. xs ! j = ys ! j \<Longrightarrow> xs ! i < ys ! i
    \<Longrightarrow> memcmp xs ys = - 1"
proof (induction xs ys arbitrary: i rule: list_induct2)
  case Nil
  then show ?case by simp
next
  case (Cons x xs y ys)
  show ?case
  proof (cases i)
    case 0
    with Cons.prems show ?thesis by auto
  next
    case (Suc k)
    with Cons.prems have "x = y" by auto
    moreover have "memcmp xs ys = - 1"
      using Cons.prems Suc by (intro Cons.IH [of k]) auto
    ultimately show ?thesis by simp
  qed
qed

lemma cmp_cidr_v4_lt_v6:
  "length a = sizeof_IPv4Network \<Longrightarrow> length b = sizeof_IPv6Network \<Longrightarrow> cmp_cidr a b = - 1"
  by (simp add: cmp_cidr_def sizeof_IPv4Network_def sizeof_IPv6Network_def)

lemma cmp_cidr_ipv4:
  assumes "length a = sizeof_IPv4Network" "length b = sizeof_IPv4Network"
  shows "address (load_IPv4Network a) < address (load_IPv4Network b) \<Longrightarrow> cmp_cidr a b = - 1"
    and "address (load_IPv4Network a) = address (load_IPv4Network b) \<Longrightarrow>
         netmask (load_IPv4Network a) < netmask (load_IPv4Network b) \<Longrightarrow> cmp_cidr a b = - 1"
  using assms by (auto simp: cmp_cidr_def Let_def)

lemma cmp_cidr_ipv6:
  assumes "length a = sizeof_IPv6Network" "length b = sizeof_IPv6Network"
  shows "i < 16 \<Longrightarrow> \<forall>j<i. a ! j = b ! j \<Longrightarrow> a ! i < b ! i \<Longrightarrow> cmp_cidr a b = - 1"
    and "take 16 a = take 16 b \<Longrightarrow> a ! 16 < b ! 16 \<Longrightarrow> cmp_cidr a b = - 1"
proof -
  have l: "length a = 19" "length b = 19"
    using assms by (simp_all add: sizeof_IPv6Network_def)
  show "cmp_cidr a b = - 1" if "i < 16" "\<forall>j<i. a ! j = b ! j" "a ! i < b ! i"
  proof -
    have "memcmp (take 16 a) (take 16 b) = - 1"
      using that l by (intro memcmp_first_diff [of _ _ i]) auto
    then show ?thesis
      using l by (simp add: cmp_cidr_def Let_def load_IPv6Network_def sizeof_IPv6Network_def
          sizeof_IPv4Network_def)
  qed
  show "cmp_cidr a b = - 1" if "take 16 a = take 16 b" "a ! 16 < b ! 16"
    using that l by (simp add: cmp_cidr_key cmp_key_def cmp3_def sizeof_IPv6Network_def
          sizeof_IPv4Network_def snoc_less)
qed

text \<open>
  Claim C4. The comparator \<open>cmp_cidr\<close> (and \<open>cmp_inet\<close>) is a total order on byte records:
  a record compares equal to itself, swapping the operands negates the result, the result
  is one of -1, 0 and 1, and "less or equal" is transitive. Every IPv4-width record compares
  less than every IPv6-width record, whatever the bytes. Within a family the address decides
  first (numerically for IPv4, byte by byte from the first byte for IPv6), then the shorter
  prefix sorts first. Two records compare equal only if their address and prefix bytes agree;
  they are then the same byte string when the bytes after the prefix length (family, flags
  and, for IPv4, the padding byte) agree as well.
\<close>

theorem cmp_total_order:
  assumes "cmp = cmp_cidr \<or> cmp = cmp_inet"
  shows "cmp a a = 0
    \<and> cmp a b = - cmp b a
    \<and> cmp a b \<in> {- 1, 0, 1}
    \<and> (cmp a b \<le> 0 \<and> cmp b c \<le> 0 \<longrightarrow> cmp a c \<le> 0)
    \<and> (length a = sizeof_IPv4Network \<and> length b = sizeof_IPv6Network \<longrightarrow> cmp a b = - 1)
    \<and> (length a = sizeof_IPv4Network \<and> length b = sizeof_IPv4Network \<longrightarrow>
          (address (load_IPv4Network a) < address (load_IPv4Network b) \<longrightarrow> cmp a b = - 1)
        \<and> (address (load_IPv4Network a) = address (load_IPv4Network b)
             \<and> netmask (load_IPv4Network a) < netmask (load_IPv4Network b) \<longrightarrow> cmp a b = - 1)
        \<and> (cmp a b = 0 \<longrightarrow> take 5 a = take 5 b)
        \<and> (cmp a b = 0 \<and> drop 5 a = drop 5 b \<longrightarrow> a = b))
    \<and> (length a = sizeof_IPv6Network \<and> length b = sizeof_IPv6Network \<longrightarrow>
          (\<forall>i<16. (\<forall>j<i. a ! j = b ! j) \<and> a ! i < b ! i \<longrightarrow> cmp a b = - 1)
        \<and> (take 16 a = take 16 b \<and> a ! 16 < b ! 16 \<longrightarrow> cmp a b = - 1)
        \<and> (cmp a b = 0 \<longrightarrow> take 17 a = take 17 b)
        \<and> (cmp a b = 0 \<and> drop 17 a = drop 17 b \<longrightarrow> a = b))"
proof -
  have cmp: "cmp = cmp_cidr"
    using assms by (auto simp: cmp_inet_def fun_eq_iff)
  have "cmp_cidr a a = 0"
    by (simp add: cmp_cidr_key cmp3_refl)
  moreover have "cmp_cidr a b = - cmp_cidr b a"
    unfolding cmp_cidr_key by (rule cmp3_sym)
  moreover have "cmp_cidr a b \<in> {- 1, 0, 1}"
    unfolding cmp_cidr_key by (rule cmp3_range)
  moreover have "cmp_cidr a b \<le> 0 \<and> cmp_cidr b c \<le> 0 \<longrightarrow> cmp_cidr a c \<le> 0"
    unfolding cmp_cidr_key by (blast intro: cmp3_trans)
  moreover note cmp_cidr_v4_lt_v6 [of a b] cmp_cidr_ipv4 [of a b] cmp_cidr_ipv6 [of a b]
    cmp_cidr_zero4 [of a b] cmp_cidr_zero6 [of a b]
    take_drop_eq [of 5 a b] take_drop_eq [of 17 a b]
  ultimately show ?thesis
    unfolding cmp by blast
qed

theorem cmp_total_order_witness:
  "cmp_cidr [0, 0, 0, 10, 8, 2, 1, 0] [0, 0, 0, 10, 8, 2, 1, 0] = 0
   \<and> cmp_cidr [0, 0, 0, 10, 8, 2, 1, 0] [0, 0, 0, 10, 16, 2, 1, 0] = - 1
   \<and> cmp_cidr [0, 0, 0, 10, 16, 2, 1, 0] [0, 0, 0, 10, 8, 2, 1, 0] = 1
   \<and> cmp_cidr [0, 0, 0, 10, 16, 2, 1, 0] [1, 0, 0, 10, 8, 2, 1, 0] = - 1
   \<and> cmp_cidr [0, 0, 0, 10, 8, 2, 1, 0] [1, 0, 0, 10, 8, 2, 1, 0] \<le> 0
   \<and> cmp_cidr [2, 0, 0, 1, 32, 2, 2, 0] [1, 0, 0, 2, 32, 2, 2, 0] = - 1
   \<and> cmp_inet [255, 255, 255, 255, 32, 2, 2, 0]
               [0, 0, 0, 0, 0, 0, 0, 0, 0, 0, 0, 0, 0, 0, 0, 0, 0, 10, 2] = - 1
   \<and> cmp_inet [0x20, 1, 0x0d, 0xb8, 0, 0, 0, 0, 0, 0, 0, 0, 0, 0, 0, 0, 32, 10, 2]
               [0x20, 1, 0x0d, 0xb8, 0, 0, 0, 0, 0, 0, 0, 0, 0, 0, 0, 0, 48, 10, 2] = - 1"
proof -
  define A :: "u8 list" where "A = [0, 0, 0, 10, 8, 2, 1, 0]"
  define B :: "u8 list" where "B = [0, 0, 0, 10, 16, 2, 1, 0]"
  define C :: "u8 list" where "C = [1, 0, 0, 10, 8, 2, 1, 0]"
  define D :: "u8 list" where "D = [255, 255, 255, 255, 32, 2, 2, 0]"
  define E :: "u8 list" where "E = [0, 0, 0, 0, 0, 0, 0, 0, 0, 0, 0, 0, 0, 0, 0, 0, 0, 10, 2]"
  define F :: "u8 list" where "F = [0x20, 1, 0x0d, 0xb8, 0, 0, 0, 0, 0, 0, 0, 0, 0, 0, 0, 0, 32, 10, 2]"
  define G :: "u8 list" where "G = [0x20, 1, 0x0d, 0xb8, 0, 0, 0, 0, 0, 0, 0, 0, 0, 0, 0, 0, 48, 10, 2]"
  define H :: "u8 list" where "H = [2, 0, 0, 1, 32, 2, 2, 0]"
  define I :: "u8 list" where "I = [1, 0, 0, 2, 32, 2, 2, 0]"
  have c: "cmp_cidr = cmp_cidr \<or> cmp_cidr = cmp_inet"
    and i: "cmp_inet = cmp_cidr \<or> cmp_inet = cmp_inet"
    by simp_all
  note t1 = cmp_total_order [OF c, of A B C] and t2 = cmp_total_order [OF c, of B C C]
    and t3 = cmp_total_order [OF i, of D E E] and t4 = cmp_total_order [OF i, of F G G]
    and t5 = cmp_total_order [OF c, of H I I]
  have lAB: "length A = sizeof_IPv4Network \<and> length B = sizeof_IPv4Network"
    and lBC: "length B = sizeof_IPv4Network \<and> length C = sizeof_IPv4Network"
    and lHI: "length H = sizeof_IPv4Network \<and> length I = sizeof_IPv4Network"
    and lDE: "length D = sizeof_IPv4Network \<and> length E = sizeof_IPv6Network"
    and lFG: "length F = sizeof_IPv6Network \<and> length G = sizeof_IPv6Network"
    by (simp_all add: A_def B_def C_def D_def E_def F_def G_def H_def I_def
        sizeof_IPv4Network_def sizeof_IPv6Network_def)
  have ab: "address (load_IPv4Network A) = address (load_IPv4Network B)
           \<and> netmask (load_IPv4Network A) < netmask (load_IPv4Network B)"
    by (simp add: layout_defs A_def B_def)
  have bc: "address (load_IPv4Network B) < address (load_IPv4Network C)"
    by (simp add: layout_defs B_def C_def)
  have hi: "address (load_IPv4Network H) < address (load_IPv4Network I)"
    by (simp add: layout_defs H_def I_def)
  have fg: "take 16 F = take 16 G \<and> F ! 16 < G ! 16"
    by (simp add: F_def G_def)
  have e0: "cmp_cidr A A = 0"
    using t1 by (rule conjunct1)
  have e1: "cmp_cidr A B = - 1"
    using t1 lAB ab by blast
  have e2: "cmp_cidr B C = - 1"
    using t2 lBC bc by blast
  have e3: "cmp_cidr A C \<le> 0"
  proof -
    have "cmp_cidr A B \<le> 0 \<and> cmp_cidr B C \<le> 0" by (simp add: e1 e2)
    with t1 show ?thesis by blast
  qed
  have "cmp_cidr A B = - cmp_cidr B A"
    using t1 by blast
  with e1 have e4: "cmp_cidr B A = 1" by simp
  have e5: "cmp_inet D E = - 1"
    using t3 lDE by blast
  have e6: "cmp_inet F G = - 1"
    using t4 lFG fg by blast
  have e7: "cmp_cidr H I = - 1"
    using t5 lHI hi by blast
  from e0 e1 e2 e3 e4 e5 e6 e7 show ?thesis
    unfolding A_def B_def C_def D_def E_def F_def G_def H_def I_def by blast
qed

text \<open>
  Claim C10. The INET comparator returns exactly what the CIDR comparator returns, on all
  pairs of byte buffers: \<^verbatim>\<open>cmp_inet\<close> is a call of \<^verbatim>\<open>cmp_cidr\<close> on its own arguments.
\<close>

theorem cmp_inet_is_cmp_cidr: "cmp_inet a b = cmp_cidr a b"
  by (simp add: cmp_inet_def)

section \<open>Where the mask and strictness properties do hold\<close>

text \<open>
  The IPv4 masks are complements for the prefix lengths 1 to 32, the IPv6 masks for every
  prefix length. The records built by \<open>inet_network\<close> and \<open>cidr_set_masklen\<close> have zero
  host bits, and so have the records built by \<open>encode_cidr\<close> with a prefix length other
  than 0.
\<close>

lemma uint_pos: "p \<noteq> 0 \<Longrightarrow> 0 < uint (p :: u8)"
  using uint_nonnegative [of p] uint_0_iff [of p] by linarith

lemma uint_lt_32: "\<not> 32 \<le> p \<Longrightarrow> uint (p :: u8) < 32"
  by (simp add: word_le_def)

lemma prefix_to_netmask_ipv4_defined: "\<exists>m. prefix_to_netmask_ipv4 p = Some m"
proof (cases "p = 0 \<or> 32 \<le> p")
  case True
  then show ?thesis by (auto simp: prefix_to_netmask_ipv4_def)
next
  case False
  then have "0 < uint p" "uint p < 32"
    by (simp_all add: uint_pos uint_lt_32)
  then show ?thesis
    using False by (simp add: prefix_to_netmask_ipv4_def shl_u32_def)
qed

lemma mask_complement_ipv4:
  assumes "p \<noteq> 0" "p \<le> 32"
  shows "\<exists>n h. prefix_to_netmask_ipv4 p = Some n \<and> prefix_to_hostmask_ipv4 p = Some h
           \<and> n OR h = - 1 \<and> n AND h = 0"
proof (cases "32 \<le> p")
  case True
  then show ?thesis
    using assms by (simp add: prefix_to_netmask_ipv4_def prefix_to_hostmask_ipv4_def)
next
  case False
  then have "0 < uint p" "uint p < 32"
    using assms(1) by (simp_all add: uint_pos uint_lt_32)
  then show ?thesis
    using False assms(1)
    by (simp add: prefix_to_netmask_ipv4_def prefix_to_hostmask_ipv4_def shl_u32_def)
qed

lemma mask_length_ipv6:
  "length (prefix_to_netmask_ipv6 p) = 16" "length (prefix_to_hostmask_ipv6 p) = 16"
  by (simp_all add: prefix_to_netmask_ipv6_def prefix_to_hostmask_ipv6_def Let_def)

lemma mask_complement_ipv6:
  assumes "i < 16"
  shows "prefix_to_netmask_ipv6 p ! i OR prefix_to_hostmask_ipv6 p ! i = 0xFF"
    and "prefix_to_netmask_ipv6 p ! i AND prefix_to_hostmask_ipv6 p ! i = 0"
  using assms
  by (auto simp: prefix_to_netmask_ipv6_def prefix_to_hostmask_ipv6_def Let_def nth_list_update)

lemma load_u32_store_app: "load_u32 (store_u32 w @ rest) = w"
proof -
  have "load_u32 (store_u32 w @ rest) = load_u32 (store_u32 w)"
    by (simp add: load_u32_def store_u32_def)
  then show ?thesis
    by (simp add: load_store)
qed

lemma load_store_IPv4Network: "load_IPv4Network (store_IPv4Network pad n) = n"
proof -
  have "store_IPv4Network pad n ! 4 = netmask n" "store_IPv4Network pad n ! 5 = family n"
    "store_IPv4Network pad n ! 6 = flags n"
    by (simp_all add: store_IPv4Network_def store_u32_def)
  moreover have "load_u32 (store_IPv4Network pad n) = address n"
    unfolding store_IPv4Network_def by (rule load_u32_store_app)
  ultimately show ?thesis
    by (simp add: load_IPv4Network_def)
qed

lemma load_store_IPv6Network:
  "length (address6 n) = 16 \<Longrightarrow> load_IPv6Network (store_IPv6Network n) = n"
  by (simp add: load_IPv6Network_def store_IPv6Network_def nth_append)

lemma masked_host_bits_ipv4:
  "host_bits_ipv4 \<lparr>address = a AND the (prefix_to_netmask_ipv4 p), netmask = p,
                   family = f, flags = g\<rparr> = Some 0"
proof -
  obtain m where "prefix_to_netmask_ipv4 p = Some m"
    using prefix_to_netmask_ipv4_defined by blast
  then show ?thesis
    by (simp add: host_bits_ipv4_def and.assoc)
qed

lemma inet_network_strict_ipv4:
  assumes "inet_network pad b = Inr r" "get_address_family b = AF_INET_VAL"
  shows "flags (load_IPv4Network r) = ADDR_FLAG_CIDR \<and> host_bits_ipv4 (load_IPv4Network r) = Some 0"
  using assms
  by (auto simp: inet_network_def Let_def load_store_IPv4Network masked_host_bits_ipv4
      split: if_splits)

lemma cidr_set_masklen_strict_ipv4:
  assumes "cidr_set_masklen pad b n = Inr r" "get_address_family b = AF_INET_VAL"
  shows "flags (load_IPv4Network r) = ADDR_FLAG_CIDR \<and> host_bits_ipv4 (load_IPv4Network r) = Some 0"
  using assms
  by (auto simp: cidr_set_masklen_def Let_def load_store_IPv4Network masked_host_bits_ipv4
      split: if_splits)

lemma masked_host_bits_ipv6:
  "host_bits_ipv6 \<lparr>address6 = map (\<lambda>i. (a ! i) AND (prefix_to_netmask_ipv6 p ! i)) [0 ..< 16],
                   netmask6 = p, family6 = f, flags6 = g\<rparr> = replicate 16 0"
  by (simp add: host_bits_ipv6_def and.assoc list_eq_iff_nth_eq)

lemma inet_network_strict_ipv6:
  assumes "inet_network pad b = Inr r" "get_address_family b = AF_INET6_VAL"
  shows "flags6 (load_IPv6Network r) = ADDR_FLAG_CIDR \<and> host_bits_ipv6 (load_IPv6Network r) = replicate 16 0"
  using assms
  by (auto simp: inet_network_def Let_def load_store_IPv6Network masked_host_bits_ipv6
      AF_INET_VAL_def AF_INET6_VAL_def split: if_splits)

lemma cidr_set_masklen_strict_ipv6:
  assumes "cidr_set_masklen pad b n = Inr r" "get_address_family b = AF_INET6_VAL"
  shows "flags6 (load_IPv6Network r) = ADDR_FLAG_CIDR \<and> host_bits_ipv6 (load_IPv6Network r) = replicate 16 0"
  using assms
  by (auto simp: cidr_set_masklen_def Let_def load_store_IPv6Network masked_host_bits_ipv6
      AF_INET_VAL_def AF_INET6_VAL_def split: if_splits)

lemma validate_cidr_network_host_bits:
  assumes "validate_cidr_network a p" "p \<noteq> 0"
  shows "host_bits_ipv4 \<lparr>address = a, netmask = p, family = f, flags = g\<rparr> = Some 0"
proof (cases "32 \<le> p")
  case True
  have "prefix_to_netmask_ipv4 p = Some (- 1)"
    using True assms(2) by (simp add: prefix_to_netmask_ipv4_def)
  then show ?thesis
    by (simp add: host_bits_ipv4_def)
next
  case False
  then have u: "0 < uint p" "uint p < 32"
    using assms(2) by (simp_all add: uint_pos uint_lt_32)
  have "uint p = int (unat p)"
    by simp
  then have n: "nat (32 - uint p) = 32 - unat p"
    using u by linarith
  show ?thesis
    using assms False u
    by (simp add: host_bits_ipv4_def prefix_to_netmask_ipv4_def shl_u32_def n
        validate_cidr_network_def IPV4_MAX_PREFIXLEN_def Let_def split: if_splits)
qed

lemma parse_groups_length: "parse_groups n p = Some vs \<Longrightarrow> length vs \<le> n"
proof (induction n arbitrary: p vs)
  case 0
  then show ?case by simp
next
  case (Suc n)
  then show ?case
    by (fastforce split: if_splits option.splits list.splits prod.splits)
qed

lemma length_group_bytes: "length (group_bytes vs) = 2 * length vs"
  by (induction vs) (simp_all add: group_bytes_def)

lemma parse_ipv6_address_length:
  assumes "parse_ipv6_address s = Some a"
  shows "length a = 16"
  using assms
  by (auto simp: parse_ipv6_address_def Let_def length_group_bytes
      split: option.splits if_splits prod.splits)

lemma and_not_ff: "x AND NOT (0xFF :: u8) = 0"
proof -
  have "(0xFF :: u8) = - 1"
    by simp
  then show ?thesis
    by (simp only: bit.compl_one and.right_neutral and_zero_eq)
qed

lemma netmask_ipv6_full_byte:
  "i < unat p div 8 \<Longrightarrow> i < 16 \<Longrightarrow> prefix_to_netmask_ipv6 p ! i = 0xFF"
  by (simp add: prefix_to_netmask_ipv6_def Let_def nth_list_update)

lemma validate_cidr_network_ipv6_host_bits:
  assumes "validate_cidr_network_ipv6 a p" "p \<noteq> 0" "length a = 16"
  shows "host_bits_ipv6 \<lparr>address6 = a, netmask6 = p, family6 = f, flags6 = g\<rparr> = replicate 16 0"
proof -
  have "a ! i AND NOT (prefix_to_netmask_ipv6 p ! i) = 0" if "i < 16" for i
  proof (cases "unat p mod 8 > 0")
    case True
    from assms(1) have "\<not> p > 128"
      by (auto simp: validate_cidr_network_ipv6_def IPV6_MAX_PREFIXLEN_def split: if_splits)
    then have "unat p \<le> 128"
      by (simp add: word_less_nat_alt)
    with True have v1: "unat p div 8 < 16"
      by presburger
    from True assms(1,2) have v2:
      "a ! (unat p div 8) AND NOT (push_bit (8 - unat p mod 8) 0xFF) = 0"
      "\<forall>j\<in>{unat p div 8 + 1 ..< 16}. a ! j = 0"
      by (auto simp: validate_cidr_network_ipv6_def Let_def list_all_iff split: if_splits)
    note v = v1 v2
    consider "i < unat p div 8" | "i = unat p div 8" | "unat p div 8 < i" by linarith
    then show ?thesis
    proof cases
      case 1
      then show ?thesis using that
        by (simp only: netmask_ipv6_full_byte and_not_ff)
    next
      case 2
      then show ?thesis using True v(1,2) that
        by (simp add: prefix_to_netmask_ipv6_def Let_def nth_list_update)
    next
      case 3
      then have "a ! i = 0" using v(3) that by auto
      then show ?thesis by simp
    qed
  next
    case False
    with assms(1,2) have v: "\<forall>j\<in>{unat p div 8 ..< 16}. a ! j = 0"
      by (auto simp: validate_cidr_network_ipv6_def Let_def list_all_iff split: if_splits)
    show ?thesis
    proof (cases "i < unat p div 8")
      case True
      then show ?thesis using that
        by (simp only: netmask_ipv6_full_byte and_not_ff)
    next
      case False
      then have "a ! i = 0" using v that by auto
      then show ?thesis by simp
    qed
  qed
  then show ?thesis
    by (simp add: host_bits_ipv6_def list_eq_iff_nth_eq)
qed

lemma encode_cidr_strict:
  assumes "encode_cidr pad buffer_size s = Inr r"
  shows "(length r = sizeof_IPv4Network \<and> flags (load_IPv4Network r) = ADDR_FLAG_CIDR
            \<and> (netmask (load_IPv4Network r) \<noteq> 0 \<longrightarrow> host_bits_ipv4 (load_IPv4Network r) = Some 0))
       \<or> (length r = sizeof_IPv6Network \<and> flags6 (load_IPv6Network r) = ADDR_FLAG_CIDR
            \<and> (netmask6 (load_IPv6Network r) \<noteq> 0 \<longrightarrow>
                  host_bits_ipv6 (load_IPv6Network r) = replicate 16 0))"
proof -
  obtain addr_str nm where sc: "sscanf_addr_netmask (c_str s) = (Some addr_str, Some nm)"
    using assms by (auto simp: encode_cidr_def split: if_splits option.splits prod.splits)
  show ?thesis
  proof (cases "parse_ipv4_address addr_str")
    case (Some a)
    let ?n = "\<lparr>address = a, netmask = of_int nm, family = AF_INET_VAL, flags = ADDR_FLAG_CIDR\<rparr>"
    from assms sc Some have r: "r = store_IPv4Network pad ?n" and v: "validate_cidr_network a (of_int nm)"
      by (auto simp: encode_cidr_def Let_def split: if_splits)
    have "length r = sizeof_IPv4Network"
      by (simp add: r store_IPv4Network_def store_u32_def sizeof_IPv4Network_def)
    moreover have "load_IPv4Network r = ?n"
      by (simp add: r load_store_IPv4Network)
    ultimately show ?thesis
      using validate_cidr_network_host_bits [OF v] by auto
  next
    case None
    then obtain a6 where a6: "parse_ipv6_address addr_str = Some a6"
      using assms sc by (auto simp: encode_cidr_def Let_def split: if_splits option.splits)
    let ?n = "\<lparr>address6 = a6, netmask6 = of_int nm, family6 = AF_INET6_VAL, flags6 = ADDR_FLAG_CIDR\<rparr>"
    from assms sc None a6 have r: "r = store_IPv6Network ?n"
      and v: "validate_cidr_network_ipv6 a6 (of_int nm)"
      by (auto simp: encode_cidr_def Let_def split: if_splits)
    have l: "length a6 = 16"
      using a6 by (rule parse_ipv6_address_length)
    then have "length r = sizeof_IPv6Network"
      by (simp add: r store_IPv6Network_def sizeof_IPv6Network_def)
    moreover have "load_IPv6Network r = ?n"
      by (simp add: r load_store_IPv6Network l)
    ultimately show ?thesis
      using validate_cidr_network_ipv6_host_bits [OF v _ l] by auto
  qed
qed

section \<open>Family detection\<close>

lemma get_address_family_ipv4_record:
  "length b = sizeof_IPv4Network \<Longrightarrow> b ! 5 = AF_INET_VAL \<Longrightarrow> get_address_family b = AF_INET_VAL"
  by (simp add: get_address_family_def)

lemma get_address_family_ipv6_record:
  "length b = sizeof_IPv6Network \<Longrightarrow> b ! 17 = AF_INET6_VAL \<Longrightarrow>
     get_address_family b = (if b ! 5 = AF_INET_VAL then AF_INET_VAL else AF_INET6_VAL)"
  by (simp add: get_address_family_def sizeof_IPv4Network_def sizeof_IPv6Network_def)

text \<open>
  Claim C1 (family from the encoded length alone). The code does not do this: the family
  probe reads the byte at offset 5 first, which in an IPv6 record is an address byte. The
  permissive record of \<^verbatim>\<open>2001:db8:2::1\<close> has IPv6 width (19 bytes), its byte 5 is 2, and
  \<open>get_address_family\<close>, \<open>inet_family\<close>, \<open>decode_inet\<close> and \<open>decode_cidr\<close> all treat it as
  an IPv4 record.
\<close>

theorem family_probe_reads_address_byte:
  "encode_inet pad 19 ''2001:db8:2::1'' = Inr record_2001_db8_2_1
   \<and> length record_2001_db8_2_1 = sizeof_IPv6Network
   \<and> get_address_family record_2001_db8_2_1 = AF_INET_VAL
   \<and> inet_family record_2001_db8_2_1 = 4
   \<and> inet_masklen record_2001_db8_2_1 = 0
   \<and> decode_inet record_2001_db8_2_1 64 = Inr ''184.13.1.32/0''
   \<and> decode_cidr record_2001_db8_2_1 64 = Inr ''184.13.1.32/0''"
  by (simp add: clib_defs parse_defs codec_defs const_defs layout_defs eval_simps
      record_2001_db8_2_1_def)

section \<open>Strict records\<close>

text \<open>
  Claim C2 (strict records have zero host bits). \<open>encode_cidr\<close> rejects
  \<^verbatim>\<open>192.168.1.5/24\<close> and accepts \<^verbatim>\<open>192.168.1.0/24\<close>, but with prefix length 0 the
  validation returns early: \<^verbatim>\<open>192.168.1.5/0\<close> and \<^verbatim>\<open>2001:db8::1/0\<close> are stored as
  strict records with all their address bits, which are host bits, kept.
\<close>

theorem encode_cidr_prefix_zero_keeps_host_bits:
  "encode_cidr pad 19 ''192.168.1.5/0'' = Inr [5, 1, 168, 192, 0, 2, 1, pad]
   \<and> flags (load_IPv4Network [5, 1, 168, 192, 0, 2, 1, pad]) = ADDR_FLAG_CIDR
   \<and> host_bits_ipv4 (load_IPv4Network [5, 1, 168, 192, 0, 2, 1, pad]) = Some 0xC0A80105
   \<and> encode_cidr pad 19 ''2001:db8::1/0''
       = Inr [0x20, 0x01, 0x0d, 0xb8, 0, 0, 0, 0, 0, 0, 0, 0, 0, 0, 0, 1, 0, 10, 1]
   \<and> encode_cidr pad 19 ''192.168.1.5/24'' = Inl Invalid
   \<and> encode_cidr pad 19 ''192.168.1.0/24'' = Inr [0, 1, 168, 192, 24, 2, 1, pad]"
  by (simp add: clib_defs parse_defs codec_defs const_defs layout_defs mask_defs eval_simps)

section \<open>Masks\<close>

text \<open>
  Claim C3 (netmask and hostmask are complements for every prefix in range, without shift
  overflow at the boundaries). For IPv4 and prefix length 0 the hostmask computes
  \<^verbatim>\<open>1u << 32\<close>, a shift of a 32-bit value by its full width, which is undefined; the
  netmask guards that case and returns 0.
\<close>

theorem hostmask_ipv4_prefix_zero_undefined:
  "prefix_to_hostmask_ipv4 0 = None
   \<and> shl_u32 1 (32 - uint (0 :: u8)) = None
   \<and> prefix_to_netmask_ipv4 0 = Some 0"
  by (simp add: mask_defs)

section \<open>Prefix range\<close>

lemma prefix_range_checked:
  assumes "sscanf_addr_netmask (c_str s) = (Some addr_str, Some nm)"
    and "sizeof_IPv6Network \<le> buffer_size"
    and "parse_ipv4_address addr_str \<noteq> None \<and> (nm < 0 \<or> 32 < nm)
         \<or> parse_ipv4_address addr_str = None \<and> (nm < 0 \<or> 128 < nm)"
  shows "encode_cidr pad buffer_size s = Inl Invalid"
    and "nm \<noteq> - 1 \<Longrightarrow> encode_inet pad buffer_size s = Inl Invalid"
  using assms
  by (auto simp: encode_cidr_def encode_inet_def IPV4_MAX_PREFIXLEN_def IPV6_MAX_PREFIXLEN_def
      sizeof_IPv4Network_def sizeof_IPv6Network_def split: option.splits)

text \<open>
  Claim C6 (an out-of-range prefix is rejected by both encoders). \<open>encode_inet\<close> uses -1
  as its "no prefix given" marker, so a supplied prefix of -1 is taken as absent and replaced
  by the full width: \<^verbatim>\<open>192.168.1.5/-1\<close> is stored as a /32 and \<^verbatim>\<open>2001:db8::1/-1\<close> as a
  /128. \<open>encode_cidr\<close> rejects the same input, and both reject /33. Every other converted
  prefix outside the range is rejected by both (lemma \<open>prefix_range_checked\<close>).
\<close>

theorem encode_inet_accepts_prefix_minus_one:
  "encode_inet pad 19 ''192.168.1.5/-1'' = Inr [5, 1, 168, 192, 32, 2, 2, pad]
   \<and> encode_inet pad 19 ''2001:db8::1/-1''
       = Inr [0x20, 0x01, 0x0d, 0xb8, 0, 0, 0, 0, 0, 0, 0, 0, 0, 0, 0, 1, 128, 10, 2]
   \<and> encode_cidr pad 19 ''192.168.1.5/-1'' = Inl Invalid
   \<and> encode_inet pad 19 ''192.168.1.5/33'' = Inl Invalid
   \<and> encode_cidr pad 19 ''192.168.1.0/33'' = Inl Invalid"
  by (simp add: clib_defs parse_defs codec_defs const_defs layout_defs eval_simps)

section \<open>Address parsers\<close>

text \<open>
  Claim C7 (the IPv4 parser accepts exactly four dot-separated groups in 0..255 and nothing
  else). The parser is one \<^verbatim>\<open>sscanf\<close> call that stops after the fourth number, so input
  after it is never looked at: a fifth group and a trailing letter are both accepted, and the
  permissive encoder stores \<^verbatim>\<open>1.2.3.4x\<close> as 1.2.3.4/32.
\<close>

theorem parse_ipv4_accepts_trailing_input:
  "parse_ipv4_address ''1.2.3.4.5'' = Some 0x01020304
   \<and> parse_ipv4_address ''1.2.3.4x'' = Some 0x01020304
   \<and> encode_inet pad 19 ''1.2.3.4x'' = Inr [4, 3, 2, 1, 32, 2, 2, pad]"
  by (simp add: clib_defs parse_defs codec_defs const_defs layout_defs eval_simps)

text \<open>
  Claim C8 (the IPv6 parser requires exactly 8 groups of 1 to 4 hex digits when there is no
  \<^verbatim>\<open>::\<close>). The group loop stops once 8 groups are stored without looking at what follows
  a colon after the eighth, so a ninth group is accepted and dropped; and a group is checked
  by value only, so five hex digits with a value up to 0xFFFF are accepted.
\<close>

theorem parse_ipv6_accepts_ninth_group:
  "parse_ipv6_address ''1:2:3:4:5:6:7:8:9''
     = Some [0, 1, 0, 2, 0, 3, 0, 4, 0, 5, 0, 6, 0, 7, 0, 8]
   \<and> parse_ipv6_address ''::00001'' = Some [0, 0, 0, 0, 0, 0, 0, 0, 0, 0, 0, 0, 0, 0, 0, 1]
   \<and> parse_ipv6_address ''1:2:3:4:5:6:7'' = None"
  by (simp add: clib_defs parse_defs eval_simps)

section \<open>The documented example\<close>

text \<open>
  Claim C9 (permissive encoding of \<^verbatim>\<open>192.168.1.5/24\<close> gives a 7-byte record with address
  192.168.1.5 and prefix 24 that \<open>decode_inet\<close> renders as \<^verbatim>\<open>192.168.1.5/24\<close>). The
  encoder writes and reports \<^verbatim>\<open>sizeof(IPv4Network)\<close> bytes, which is 8 and not the 7 of
  the struct's comment: the seven bytes of the fields and the padding byte of the struct,
  whatever it holds. The address field is 192.168.1.5 (0xC0A80105), the prefix length is 24
  and \<open>decode_inet\<close> renders the record as \<^verbatim>\<open>192.168.1.5/24\<close>; the seven bytes of the
  fields alone are refused by \<open>decode_inet\<close>, and a 7-byte destination by \<open>encode_inet\<close>.
\<close>

theorem encode_inet_record_has_8_bytes:
  "encode_inet pad 19 ''192.168.1.5/24'' = Inr (record_192_168_1_5_24 pad)
   \<and> length (record_192_168_1_5_24 pad) = 8
   \<and> address (load_IPv4Network (record_192_168_1_5_24 pad)) = 0xC0A80105
   \<and> format_ipv4_address (address (load_IPv4Network (record_192_168_1_5_24 pad))) 32
       = ''192.168.1.5''
   \<and> netmask (load_IPv4Network (record_192_168_1_5_24 pad)) = 24
   \<and> decode_inet (record_192_168_1_5_24 pad) 64 = Inr ''192.168.1.5/24''
   \<and> decode_inet [5, 1, 168, 192, 24, 2, 2] 64 = Inl Failure
   \<and> encode_inet pad 7 ''192.168.1.5/24'' = Inl Failure"
  by (simp add: clib_defs parse_defs codec_defs const_defs layout_defs eval_simps
      record_192_168_1_5_24_def)

section \<open>The separator\<close>

lemma sscanf_no_slash:
  assumes "CHR ''/'' \<notin> set s"
  shows "snd (sscanf_addr_netmask s) = None"
proof -
  have "c \<noteq> CHR ''/''" if "drop n s = c # r" for n c r
  proof -
    from that have "c \<in> set s" by (metis in_set_dropD list.set_intros(1))
    with assms show ?thesis by auto
  qed
  then show ?thesis
    by (auto simp: sscanf_addr_netmask_def Let_def split: list.splits option.splits)
qed

lemma sscanf_no_slash_cases:
  assumes "CHR ''/'' \<notin> set s"
  shows "sscanf_addr_netmask s = (None, None) \<or> (\<exists>a. sscanf_addr_netmask s = (Some a, None))"
  using sscanf_no_slash [OF assms]
  by (cases "sscanf_addr_netmask s"; cases "fst (sscanf_addr_netmask s)") auto

lemma encode_cidr_no_slash:
  assumes "CHR ''/'' \<notin> set (c_str s)" "sizeof_IPv4Network \<le> buffer_size"
  shows "encode_cidr pad buffer_size s = Inl Invalid"
  using sscanf_no_slash_cases [OF assms(1)] assms(2)
  by (auto simp: encode_cidr_def)

lemma encode_inet_no_slash4:
  assumes "CHR ''/'' \<notin> set (c_str s)" "sizeof_IPv4Network \<le> buffer_size"
    "parse_ipv4_address (take 63 (c_str s)) = Some a"
  shows "encode_inet pad buffer_size s = Inr (store_IPv4Network pad
            \<lparr>address = a, netmask = IPV4_MAX_PREFIXLEN, family = AF_INET_VAL, flags = ADDR_FLAG_INET\<rparr>)"
  using sscanf_no_slash_cases [OF assms(1)] assms(2,3)
  by (auto simp: encode_inet_def IPV4_MAX_PREFIXLEN_def)

lemma encode_inet_no_slash6:
  assumes "CHR ''/'' \<notin> set (c_str s)" "sizeof_IPv6Network \<le> buffer_size"
    "parse_ipv4_address (take 63 (c_str s)) = None"
    "parse_ipv6_address (take 63 (c_str s)) = Some a6"
  shows "encode_inet pad buffer_size s = Inr (store_IPv6Network
            \<lparr>address6 = a6, netmask6 = IPV6_MAX_PREFIXLEN, family6 = AF_INET6_VAL, flags6 = ADDR_FLAG_INET\<rparr>)"
  using sscanf_no_slash_cases [OF assms(1)] assms(2,3,4)
  by (auto simp: encode_inet_def IPV6_MAX_PREFIXLEN_def sizeof_IPv6Network_def sizeof_IPv4Network_def)

text \<open>
  Claim C5 as stated (the strict encoder accepts an address without \<^verbatim>\<open>/\<close> and defaults
  the prefix like the permissive one) fails: \<^verbatim>\<open>192.168.1.0\<close> is a valid IPv4 address,
  the permissive encoder stores it as a /32, and the strict encoder rejects it.
\<close>

theorem encode_cidr_rejects_missing_slash:
  "parse_ipv4_address ''192.168.1.0'' = Some 0xC0A80100
   \<and> encode_inet 0 19 ''192.168.1.0'' = Inr [0, 1, 168, 192, 32, 2, 2, 0]
   \<and> encode_cidr 0 19 ''192.168.1.0'' = Inl Invalid"
  by (simp add: clib_defs parse_defs codec_defs const_defs layout_defs eval_simps)

text \<open>
  Claim C5, amended. The strict encoder requires the \<^verbatim>\<open>/\<close> separator: for every input
  without a \<^verbatim>\<open>/\<close>, \<open>encode_cidr\<close> fails as invalid. Only the permissive encoder
  defaults the prefix length to the full width: it stores an input without \<^verbatim>\<open>/\<close> whose
  first 63 characters parse as an IPv4 address with prefix 32, and one that parses as an IPv6
  address (and not as IPv4) with prefix 128.
\<close>

theorem encode_cidr_requires_slash:
  assumes "CHR ''/'' \<notin> set (c_str s)" and "sizeof_IPv6Network \<le> buffer_size"
  shows "encode_cidr pad buffer_size s = Inl Invalid
    \<and> (parse_ipv4_address (take 63 (c_str s)) = Some a \<longrightarrow>
         encode_inet pad buffer_size s = Inr (store_IPv4Network pad
           \<lparr>address = a, netmask = IPV4_MAX_PREFIXLEN, family = AF_INET_VAL,
            flags = ADDR_FLAG_INET\<rparr>))
    \<and> (parse_ipv4_address (take 63 (c_str s)) = None
         \<and> parse_ipv6_address (take 63 (c_str s)) = Some a6 \<longrightarrow>
         encode_inet pad buffer_size s = Inr (store_IPv6Network
           \<lparr>address6 = a6, netmask6 = IPV6_MAX_PREFIXLEN, family6 = AF_INET6_VAL,
            flags6 = ADDR_FLAG_INET\<rparr>))"
proof -
  have b4: "sizeof_IPv4Network \<le> buffer_size"
    using assms(2) by (simp add: sizeof_IPv4Network_def sizeof_IPv6Network_def)
  show ?thesis
    using encode_cidr_no_slash [OF assms(1) b4]
      encode_inet_no_slash4 [OF assms(1) b4]
      encode_inet_no_slash6 [OF assms(1) assms(2)]
    by blast
qed

theorem encode_cidr_requires_slash_witness:
  "encode_cidr 0 19 ''10.0.0.0'' = Inl Invalid
   \<and> encode_inet 0 19 ''10.0.0.0'' = Inr [0, 0, 0, 10, 32, 2, 2, 0]
   \<and> encode_cidr 0 19 ''fe80::'' = Inl Invalid
   \<and> encode_inet 0 19 ''fe80::'' = Inr [0xfe, 0x80, 0, 0, 0, 0, 0, 0, 0, 0, 0, 0, 0, 0, 0, 0, 128, 10, 2]"
proof -
  have n4: "CHR ''/'' \<notin> set (c_str ''10.0.0.0'')" and n6: "CHR ''/'' \<notin> set (c_str ''fe80::'')"
    by (simp_all add: c_str_def)
  have sz: "sizeof_IPv6Network \<le> 19"
    by (simp add: sizeof_IPv6Network_def)
  have p4: "parse_ipv4_address (take 63 (c_str ''10.0.0.0'')) = Some 0x0A000000"
    by (simp add: clib_defs parse_defs eval_simps)
  have p6: "parse_ipv4_address (take 63 (c_str ''fe80::'')) = None
      \<and> parse_ipv6_address (take 63 (c_str ''fe80::''))
          = Some [0xfe, 0x80, 0, 0, 0, 0, 0, 0, 0, 0, 0, 0, 0, 0, 0, 0]"
    by (simp add: clib_defs parse_defs eval_simps)
  note t4 = encode_cidr_requires_slash [OF n4 sz, where pad = 0 and a = "0x0A000000"]
  note t6 = encode_cidr_requires_slash [OF n6 sz, where pad = 0
      and ?a6.0 = "[0xfe, 0x80, 0, 0, 0, 0, 0, 0, 0, 0, 0, 0, 0, 0, 0, 0]"]
  have "encode_cidr 0 19 ''10.0.0.0'' = Inl Invalid"
    using t4 by (rule conjunct1)
  moreover have "encode_inet 0 19 ''10.0.0.0'' = Inr [0, 0, 0, 10, 32, 2, 2, 0]"
    using t4 [THEN conjunct2, THEN conjunct1, THEN mp, OF p4]
    by (simp add: layout_defs const_defs)
  moreover have "encode_cidr 0 19 ''fe80::'' = Inl Invalid"
    using t6 by (rule conjunct1)
  moreover have "encode_inet 0 19 ''fe80::''
      = Inr [0xfe, 0x80, 0, 0, 0, 0, 0, 0, 0, 0, 0, 0, 0, 0, 0, 0, 128, 10, 2]"
    using t6 [THEN conjunct2, THEN conjunct2, THEN mp, OF p6]
    by (simp add: layout_defs const_defs)
  ultimately show ?thesis by blast
qed

end
